theory Spec2Isabelle
  imports Complex_Main
begin

section \<open>The trace viewer workbench (packages/trace-viewer/src/ui/workbench.tsx)\<close>

text \<open>
  The \<open>Workbench\<close> component keeps its user-controlled state in React state cells, derives
  the selected and the active action, the time boundaries and the list of property tabs
  from them and from the trace model, and hands callbacks to its panels. The embedding
  keeps the state cells in one record, every callback as a function from the record to
  the updated record, and every memoised value as a pure function of its dependencies.
\<close>

subsection \<open>Data\<close>

text \<open>
  An action of the trace model. The workbench reads \<open>callId\<close> and \<open>apiName\<close> (and passes
  the rest of the object on to the panels).
\<close>

record action =
  callId :: string
  apiName :: string

text \<open>
  The part of \<open>MultiTraceModel\<close> the workbench reads. The class itself lives in
  \<open>modelUtil\<close>; the result of its query \<open>failedAction()\<close> is a field here. A time that is
  \<open>undefined\<close> is \<open>None\<close>. JavaScript numbers are modelled as reals.
\<close>

record model =
  actions :: "action list"
  failedAction :: "action option"
  startTime :: "real option"
  endTime :: "real option"

record Boundaries =
  minimum :: real
  maximum :: real

text \<open>An error of the errors tab: it belongs to an action, or stands alone.\<close>

record ErrorDescription =
  error_action :: "action option"
  error_message :: string

type_synonym attachment = string
type_synonym Entry = string
type_synonym ConsoleEntry = string

datatype sidebar = bottom | right

text \<open>The state cells of the component (lines 58 to 69), one field each.\<close>

record workbench =
  selectedCallId :: "string option"
  revealedError :: "ErrorDescription option"
  revealedAttachment :: "attachment option"
  highlightedCallId :: "string option"
  highlightedEntry :: "Entry option"
  highlightedConsoleMessage :: "ConsoleEntry option"
  selectedNavigatorTab :: string
  selectedPropertiesTab :: string
  isInspecting :: bool
  highlightedLocator :: string
  selectedTime :: "Boundaries option"
  sidebarLocation :: sidebar

subsection \<open>The callbacks that write the state\<close>

text \<open>
  A callback runs against the state of the render that created it and queues its
  writes; the next render sees all of them. Each callback is the function from the one
  state to the other.
\<close>

definition setSelectedAction :: "action option \<Rightarrow> workbench \<Rightarrow> workbench" where
  "setSelectedAction a s =
     s\<lparr>selectedCallId := (case a of None \<Rightarrow> None | Some x \<Rightarrow> Some (callId x)),
       revealedError := None\<rparr>"

definition setHighlightedAction :: "action option \<Rightarrow> workbench \<Rightarrow> workbench" where
  "setHighlightedAction a s =
     s\<lparr>highlightedCallId := (case a of None \<Rightarrow> None | Some x \<Rightarrow> Some (callId x))\<rparr>"

text \<open>The effect that runs when the \<open>model\<close> reference changes (lines 86 to 89).\<close>

definition modelChanged :: "workbench \<Rightarrow> workbench" where
  "modelChanged s = s\<lparr>selectedTime := None, revealedError := None\<rparr>"

definition onActionSelected :: "action \<Rightarrow> workbench \<Rightarrow> workbench" where
  "onActionSelected a s = setHighlightedAction None (setSelectedAction (Some a) s)"

definition selectPropertiesTab :: "string \<Rightarrow> workbench \<Rightarrow> workbench" where
  "selectPropertiesTab tab s =
     (let s1 = s\<lparr>selectedPropertiesTab := tab\<rparr>
      in if tab \<noteq> ''inspector'' then s1\<lparr>isInspecting := False\<rparr> else s1)"

definition setIsInspecting :: "bool \<Rightarrow> workbench \<Rightarrow> workbench" where
  "setIsInspecting v s =
     (let s1 = (if \<not> isInspecting s \<and> v then selectPropertiesTab ''inspector'' s else s)
      in s1\<lparr>isInspecting := v\<rparr>)"

definition locatorPicked :: "string \<Rightarrow> workbench \<Rightarrow> workbench" where
  "locatorPicked locator s = selectPropertiesTab ''inspector'' (s\<lparr>highlightedLocator := locator\<rparr>)"

definition revealAttachment :: "attachment \<Rightarrow> workbench \<Rightarrow> workbench" where
  "revealAttachment att s = (selectPropertiesTab ''attachments'' s)\<lparr>revealedAttachment := Some att\<rparr>"

text \<open>
  The \<open>revealInSource\<close> callback of the errors tab (lines 189 to 195): an error of an
  action selects the action, any other error is revealed; then the source tab is selected.
\<close>

definition revealInSource :: "ErrorDescription \<Rightarrow> workbench \<Rightarrow> workbench" where
  "revealInSource e s =
     selectPropertiesTab ''source''
       (case error_action e of
          Some a \<Rightarrow> setSelectedAction (Some a) s
        | None \<Rightarrow> s\<lparr>revealedError := Some e\<rparr>)"

text \<open>The coupling of the inspecting flag and the properties tab.\<close>

definition inspecting_on_inspector :: "workbench \<Rightarrow> bool" where
  "inspecting_on_inspector s = (isInspecting s \<longrightarrow> selectedPropertiesTab s = ''inspector'')"

subsection \<open>The derived actions\<close>

text \<open>\<open>Array.prototype.find\<close>: the first element that satisfies the predicate.\<close>

fun array_find :: "('a \<Rightarrow> bool) \<Rightarrow> 'a list \<Rightarrow> 'a option" where
  "array_find p [] = None"
| "array_find p (x # xs) = (if p x then Some x else array_find p xs)"

definition highlightedAction :: "model option \<Rightarrow> string option \<Rightarrow> action option" where
  "highlightedAction m hid =
     (case m of
        None \<Rightarrow> None
      | Some md \<Rightarrow> array_find (\<lambda>a. Some (callId a) = hid) (actions md))"

text \<open>\<open>xs[i]\<close>: the element at the index, \<open>undefined\<close> outside the array.\<close>

definition arrayAt :: "'a list \<Rightarrow> nat \<Rightarrow> 'a option" where
  "arrayAt xs i = (if i < length xs then Some (xs ! i) else None)"

text \<open>
  The first step of \<open>selectedAction\<close> (lines 92 to 96). The test \<open>if (selectedCallId)\<close>
  fails for \<open>undefined\<close> and for the empty string.
\<close>

definition findSelected :: "model option \<Rightarrow> string option \<Rightarrow> action option" where
  "findSelected m sel =
     (case sel of
        None \<Rightarrow> None
      | Some cid \<Rightarrow>
          if cid = [] then None
          else (case m of
                  None \<Rightarrow> None
                | Some md \<Rightarrow> array_find (\<lambda>a. callId a = cid) (actions md)))"

text \<open>
  The loop of lines 105 to 110, from the counter \<open>i\<close> on: it stops at the first action
  named \<open>After Hooks\<close> whose index is not 0 and yields the index before it; when it runs
  to the end, \<open>index\<close> is as it was.
\<close>

function hooksLoop :: "action list \<Rightarrow> nat \<Rightarrow> nat \<Rightarrow> nat" where
  "hooksLoop acts i index =
     (if i < length acts
      then (if apiName (acts ! i) = ''After Hooks'' \<and> i \<noteq> 0 then i - 1
            else hooksLoop acts (i + 1) index)
      else index)"
  by pat_completeness auto
termination
  by (relation "measure (\<lambda>(acts, i, index). length acts - i)") auto

declare hooksLoop.simps [simp del]

definition selectedAction :: "model option \<Rightarrow> string option \<Rightarrow> action option" where
  "selectedAction m sel =
     (case findSelected m sel of
        Some a \<Rightarrow> Some a
      | None \<Rightarrow>
         (case (case m of None \<Rightarrow> None | Some md \<Rightarrow> failedAction md) of
            Some f \<Rightarrow> Some f
          | None \<Rightarrow>
             (case m of
                None \<Rightarrow> None
              | Some md \<Rightarrow>
                  if length (actions md) \<noteq> 0
                  then arrayAt (actions md) (hooksLoop (actions md) 0 (length (actions md) - 1))
                  else None)))"

text \<open>\<open>highlightedAction || selectedAction\<close>: an object is truthy, \<open>undefined\<close> is not.\<close>

definition activeAction :: "action option \<Rightarrow> action option \<Rightarrow> action option" where
  "activeAction highlighted selected =
     (case highlighted of Some a \<Rightarrow> Some a | None \<Rightarrow> selected)"

text \<open>
  The default action as the specification words it: the last action, or the one before
  it when the last action is named \<open>After Hooks\<close> and is not the first.
\<close>

definition spec_defaultAction :: "action list \<Rightarrow> action" where
  "spec_defaultAction acts =
     (if apiName (last acts) = ''After Hooks'' \<and> length acts - 1 \<noteq> 0
      then acts ! (length acts - 2)
      else last acts)"

subsection \<open>The time boundaries\<close>

text \<open>
  \<open>x || d\<close> on a number that may be \<open>undefined\<close>: \<open>undefined\<close> and 0 are falsy (so is NaN,
  which the reals do not have), and give the default.
\<close>

definition orDefault :: "real option \<Rightarrow> real \<Rightarrow> real" where
  "orDefault x d = (case x of None \<Rightarrow> d | Some v \<Rightarrow> if v = 0 then d else v)"

text \<open>The object literal of line 269, before the correction.\<close>

definition initialBoundaries :: "model option \<Rightarrow> Boundaries" where
  "initialBoundaries m =
     \<lparr>minimum = orDefault (case m of None \<Rightarrow> None | Some md \<Rightarrow> startTime md) 0,
      maximum = orDefault (case m of None \<Rightarrow> None | Some md \<Rightarrow> endTime md) 30000\<rparr>"

definition boundaries :: "model option \<Rightarrow> Boundaries" where
  "boundaries m =
     (let b0 = initialBoundaries m;
          b1 = (if minimum b0 > maximum b0 then b0\<lparr>minimum := 0, maximum := 30000\<rparr> else b0)
      in b1\<lparr>maximum := maximum b1 + (maximum b1 - minimum b1) / 20\<rparr>)"

subsection \<open>The properties tabs\<close>

text \<open>
  A tab descriptor without its \<open>render\<close> callback, which only the tabbed pane calls.
\<close>

record TabbedPaneTabModel =
  tab_id :: string
  title :: string
  count :: "nat option"
  errorCount :: "nat option"

record annotation =
  annotation_type :: string
  description :: "string option"

text \<open>
  The sizes the badges show: \<open>errorsModel.errors.size\<close>, \<open>consoleModel.entries.length\<close>,
  \<open>networkModel.resources.length\<close> and \<open>attachments.length\<close>, computed by the tab models.
\<close>

record badges =
  errors :: nat
  consoleEntries :: nat
  resources :: nat
  attachments :: nat

definition inspectorTab :: TabbedPaneTabModel where
  "inspectorTab = \<lparr>tab_id = ''inspector'', title = ''Locator'', count = None, errorCount = None\<rparr>"

definition callTab :: TabbedPaneTabModel where
  "callTab = \<lparr>tab_id = ''call'', title = ''Call'', count = None, errorCount = None\<rparr>"

definition logTab :: TabbedPaneTabModel where
  "logTab = \<lparr>tab_id = ''log'', title = ''Log'', count = None, errorCount = None\<rparr>"

definition errorsTab :: "badges \<Rightarrow> TabbedPaneTabModel" where
  "errorsTab b = \<lparr>tab_id = ''errors'', title = ''Errors'', count = None, errorCount = Some (errors b)\<rparr>"

definition consoleTab :: "badges \<Rightarrow> TabbedPaneTabModel" where
  "consoleTab b =
     \<lparr>tab_id = ''console'', title = ''Console'', count = Some (consoleEntries b), errorCount = None\<rparr>"

definition networkTab :: "badges \<Rightarrow> TabbedPaneTabModel" where
  "networkTab b =
     \<lparr>tab_id = ''network'', title = ''Network'', count = Some (resources b), errorCount = None\<rparr>"

definition attachmentsTab :: "badges \<Rightarrow> TabbedPaneTabModel" where
  "attachmentsTab b =
     \<lparr>tab_id = ''attachments'', title = ''Attachments'', count = Some (attachments b),
      errorCount = None\<rparr>"

definition annotationsTab :: "annotation list \<Rightarrow> TabbedPaneTabModel" where
  "annotationsTab anns =
     \<lparr>tab_id = ''annotations'', title = ''Annotations'', count = Some (length anns),
      errorCount = None\<rparr>"

text \<open>The array literal of lines 242 to 250.\<close>

definition baseTabs :: "badges \<Rightarrow> TabbedPaneTabModel list" where
  "baseTabs b =
     [inspectorTab, callTab, logTab, errorsTab b, consoleTab b, networkTab b, attachmentsTab b]"

text \<open>Lines 252 to 260: \<open>tabs.push(annotationsTab)\<close> when \<open>annotations\<close> is not \<open>undefined\<close>.\<close>

definition pushAnnotations ::
  "annotation list option \<Rightarrow> TabbedPaneTabModel list \<Rightarrow> TabbedPaneTabModel list" where
  "pushAnnotations annotations ts =
     (case annotations of None \<Rightarrow> ts | Some anns \<Rightarrow> ts @ [annotationsTab anns])"

text \<open>
  \<open>Array.prototype.indexOf\<close>: the index of the first element equal to \<open>x\<close>, or -1. The
  descriptors of one render are distinct objects with distinct ids, so equality of the
  records stands for the identity of the objects.
\<close>

fun indexOfFrom :: "'a list \<Rightarrow> 'a \<Rightarrow> int \<Rightarrow> int" where
  "indexOfFrom [] x i = - 1"
| "indexOfFrom (y # ys) x i = (if y = x then i else indexOfFrom ys x (i + 1))"

definition indexOf :: "'a list \<Rightarrow> 'a \<Rightarrow> int" where
  "indexOf xs x = indexOfFrom xs x 0"

text \<open>
  \<open>Array.prototype.splice(start, deleteCount, ...items)\<close>, as the array it leaves: a
  negative \<open>start\<close> counts from the end, and both numbers are clamped to the array.
\<close>

definition splice :: "'a list \<Rightarrow> int \<Rightarrow> int \<Rightarrow> 'a list \<Rightarrow> 'a list" where
  "splice xs start deleteCount items =
     (let len = int (length xs);
          actualStart = (if start < 0 then max (len + start) 0 else min start len);
          actualDeleteCount = min (max deleteCount 0) (len - actualStart)
      in take (nat actualStart) xs @ items @ drop (nat (actualStart + actualDeleteCount)) xs)"

datatype error = ReferenceError

text \<open>
  Lines 263 to 265. The declaration of \<open>sourceTab\<close> (lines 204 to 216) is commented out,
  so the name is bound only if the surrounding scope binds it: \<open>None\<close> is the file as it
  is, where reading the name throws; \<open>Some t\<close> is the file with a tab \<open>t\<close> under that name.
\<close>

definition sourcesFirst ::
  "TabbedPaneTabModel option \<Rightarrow> TabbedPaneTabModel list \<Rightarrow> error + TabbedPaneTabModel list" where
  "sourcesFirst sourceTab ts =
     (case sourceTab of
        None \<Rightarrow> Inl ReferenceError
      | Some st \<Rightarrow>
          (let sourceTabIndex = indexOf ts st;
               ts1 = splice ts sourceTabIndex 1 [];
               ts2 = splice ts1 1 0 [st]
           in Inr ts2))"

text \<open>The tab of the commented-out declaration, with its error count as a parameter.\<close>

definition declaredSourceTab :: "nat option \<Rightarrow> TabbedPaneTabModel" where
  "declaredSourceTab fallbackSourceErrorCount =
     \<lparr>tab_id = ''source'', title = ''Source'', count = None,
      errorCount = fallbackSourceErrorCount\<rparr>"

text \<open>
  The list handed to the tabbed pane (lines 242 to 266). \<open>showSourcesFirst\<close> is an
  optional boolean; \<open>undefined\<close> is falsy, like \<open>False\<close>.
\<close>

definition tabs ::
  "TabbedPaneTabModel option \<Rightarrow> bool \<Rightarrow> annotation list option \<Rightarrow> badges
     \<Rightarrow> error + TabbedPaneTabModel list" where
  "tabs sourceTab showSourcesFirst annotations b =
     (let ts = pushAnnotations annotations (baseTabs b)
      in if showSourcesFirst then sourcesFirst sourceTab ts else Inr ts)"

section \<open>Properties\<close>

subsection \<open>Array search and the loop over the actions\<close>

lemma array_find_Some:
  "array_find p xs = Some x \<Longrightarrow> x \<in> set xs \<and> p x"
  by (induction xs) (auto split: if_splits)

lemma array_find_mem:
  "a \<in> set xs \<Longrightarrow> p a \<Longrightarrow> \<exists>b. array_find p xs = Some b"
  by (induction xs) auto

lemma array_find_first:
  "array_find p xs = Some x \<Longrightarrow>
     \<exists>i<length xs. xs ! i = x \<and> (\<forall>j<i. \<not> p (xs ! j))"
proof (induction xs)
  case Nil
  then show ?case by simp
next
  case (Cons y ys)
  show ?case
  proof (cases "p y")
    case True
    with Cons.prems have "x = y" by simp
    then have "(y # ys) ! 0 = x \<and> (\<forall>j<0. \<not> p ((y # ys) ! j))" by simp
    then show ?thesis by blast
  next
    case False
    with Cons.prems have "array_find p ys = Some x" by simp
    from Cons.IH [OF this] obtain i where i: "i < length ys" "ys ! i = x" "\<forall>j<i. \<not> p (ys ! j)"
      by blast
    have "\<forall>j<Suc i. \<not> p ((y # ys) ! j)"
    proof (intro allI impI)
      fix j assume "j < Suc i"
      then show "\<not> p ((y # ys) ! j)" using False i(3) by (cases j) auto
    qed
    with i(1,2) have "Suc i < length (y # ys) \<and> (y # ys) ! Suc i = x \<and> (\<forall>j<Suc i. \<not> p ((y # ys) ! j))"
      by simp
    then show ?thesis by blast
  qed
qed

lemma array_find_distinct:
  "distinct (map f xs) \<Longrightarrow> a \<in> set xs \<Longrightarrow> array_find (\<lambda>b. f b = f a) xs = Some a"
  by (induction xs) (auto simp: rev_image_eqI)

text \<open>The loop runs to the end when no action from \<open>i\<close> on, index 0 apart, is a hook.\<close>

lemma hooksLoop_none:
  "(\<forall>j. i \<le> j \<and> j < length acts \<and> j \<noteq> 0 \<longrightarrow> apiName (acts ! j) \<noteq> ''After Hooks'')
     \<Longrightarrow> hooksLoop acts i index = index"
proof (induction acts i index rule: hooksLoop.induct)
  case (1 acts i index)
  show ?case
  proof (cases "i < length acts")
    case True
    with "1.prems" have no: "\<not> (apiName (acts ! i) = ''After Hooks'' \<and> i \<noteq> 0)" by auto
    have "hooksLoop acts (i + 1) index = index"
      using "1.IH" [OF True no] "1.prems" by auto
    with True no show ?thesis by (subst hooksLoop.simps) auto
  next
    case False
    then show ?thesis by (subst hooksLoop.simps) simp
  qed
qed

text \<open>The loop stops at the first hook from \<open>i\<close> on whose index is not 0.\<close>

lemma hooksLoop_first:
  "i \<le> k \<Longrightarrow> k < length acts \<Longrightarrow> k \<noteq> 0 \<Longrightarrow> apiName (acts ! k) = ''After Hooks''
     \<Longrightarrow> (\<forall>j. i \<le> j \<and> j < k \<and> j \<noteq> 0 \<longrightarrow> apiName (acts ! j) \<noteq> ''After Hooks'')
     \<Longrightarrow> hooksLoop acts i index = k - 1"
proof (induction acts i index rule: hooksLoop.induct)
  case (1 acts i index)
  from "1.prems" have lt: "i < length acts" by simp
  show ?case
  proof (cases "i = k")
    case True
    with "1.prems" lt show ?thesis by (subst hooksLoop.simps) simp
  next
    case False
    with "1.prems" have ik: "i < k" by simp
    with "1.prems" have no: "\<not> (apiName (acts ! i) = ''After Hooks'' \<and> i \<noteq> 0)" by auto
    have "hooksLoop acts (i + 1) index = k - 1"
      using "1.IH" [OF lt no] "1.prems" ik by auto
    with lt no show ?thesis by (subst hooksLoop.simps) auto
  qed
qed

lemma selectedAction_fallthrough:
  "findSelected (Some m) sel = None \<Longrightarrow> failedAction m = None \<Longrightarrow> actions m \<noteq> []
     \<Longrightarrow> selectedAction (Some m) sel
         = arrayAt (actions m) (hooksLoop (actions m) 0 (length (actions m) - 1))"
  by (simp add: selectedAction_def)

subsection \<open>Arrays of tabs\<close>

lemma tab_ids:
  "tab_id inspectorTab = ''inspector''" "tab_id callTab = ''call''" "tab_id logTab = ''log''"
  "tab_id (errorsTab b) = ''errors''" "tab_id (consoleTab b) = ''console''"
  "tab_id (networkTab b) = ''network''" "tab_id (attachmentsTab b) = ''attachments''"
  "tab_id (annotationsTab anns) = ''annotations''" "tab_id (declaredSourceTab n) = ''source''"
  by (simp_all add: inspectorTab_def callTab_def logTab_def errorsTab_def consoleTab_def
      networkTab_def attachmentsTab_def annotationsTab_def declaredSourceTab_def)

lemma pushAnnotations_None: "pushAnnotations None ts = ts"
  by (simp add: pushAnnotations_def)

lemma pushAnnotations_Some: "pushAnnotations (Some anns) ts = ts @ [annotationsTab anns]"
  by (simp add: pushAnnotations_def)

lemma indexOfFrom_absent: "x \<notin> set xs \<Longrightarrow> indexOfFrom xs x i = - 1"
  by (induction xs arbitrary: i) auto

lemma indexOf_absent: "x \<notin> set xs \<Longrightarrow> indexOf xs x = - 1"
  by (simp add: indexOf_def indexOfFrom_absent)

text \<open>\<open>splice(-1, 1)\<close> deletes the last element.\<close>

lemma splice_delete_last: "xs \<noteq> [] \<Longrightarrow> splice xs (- 1) 1 [] = butlast xs"
proof -
  assume ne: "xs \<noteq> []"
  then have len: "1 \<le> int (length xs)" by (cases xs) simp_all
  then have "max (int (length xs) + - 1) 0 = int (length xs) - 1" by simp
  moreover have "nat (int (length xs) - 1) = length xs - 1" by simp
  ultimately show ?thesis using len
    by (simp add: splice_def Let_def butlast_conv_take)
qed

lemma splice_insert_second: "xs \<noteq> [] \<Longrightarrow> splice xs 1 0 [y] = hd xs # y # tl xs"
proof -
  assume ne: "xs \<noteq> []"
  then obtain z zs where xs: "xs = z # zs" by (cases xs) auto
  have "min 1 (int (length xs)) = 1" using xs by simp
  then show ?thesis using xs by (simp add: splice_def Let_def)
qed

text \<open>
  When the source tab is not in the array, \<open>indexOf\<close> is -1, the first \<open>splice\<close> deletes
  the last tab and the second puts the source tab at index 1.
\<close>

lemma sourcesFirst_absent:
  "st \<notin> set ts \<Longrightarrow> 2 \<le> length ts
     \<Longrightarrow> sourcesFirst (Some st) ts = Inr (hd ts # st # tl (butlast ts))"
proof -
  assume absent: "st \<notin> set ts" and len: "2 \<le> length ts"
  from len have ne: "ts \<noteq> []" and ne': "butlast ts \<noteq> []"
    by (auto simp: butlast_conv_take)
  have hd: "hd (butlast ts) = hd ts"
    using len by (cases ts) (auto split: if_splits)
  show ?thesis
    by (simp add: sourcesFirst_def Let_def indexOf_absent [OF absent]
        splice_delete_last [OF ne] splice_insert_second [OF ne'] hd)
qed

lemma sourceTab_absent:
  "declaredSourceTab n \<notin> set (pushAnnotations annotations (baseTabs b))"
proof -
  have "tab_id t \<noteq> ''source''" if "t \<in> set (pushAnnotations annotations (baseTabs b))" for t
    using that by (cases annotations) (auto simp: pushAnnotations_def baseTabs_def tab_ids)
  then show ?thesis using tab_ids(9) by blast
qed

subsection \<open>The selected action\<close>

text \<open>
  Claim C1, as amended. When \<open>selectedCallId\<close> does not resolve, the model reports no
  failed action and there is at least one action, \<open>selectedAction\<close> is the action just
  before the first action named \<open>After Hooks\<close> whose index is not 0; when no action
  after the first has that name, it is the last action. So an \<open>After Hooks\<close> at index 0
  is never skipped, and whenever no action strictly between the first and the last is
  named \<open>After Hooks\<close>, the result is the one the specification describes.
\<close>

theorem selectedAction_default:
  assumes sel: "findSelected (Some m) sel = None"
    and nofail: "failedAction m = None"
    and nonempty: "actions m \<noteq> []"
  shows "(\<forall>k. 0 < k \<and> k < length (actions m) \<and> apiName (actions m ! k) = ''After Hooks''
              \<and> (\<forall>j. 0 < j \<and> j < k \<longrightarrow> apiName (actions m ! j) \<noteq> ''After Hooks'')
            \<longrightarrow> selectedAction (Some m) sel = Some (actions m ! (k - 1)))
       \<and> ((\<forall>j. 0 < j \<and> j < length (actions m) \<longrightarrow> apiName (actions m ! j) \<noteq> ''After Hooks'')
            \<longrightarrow> selectedAction (Some m) sel = Some (last (actions m)))
       \<and> ((\<forall>j. 0 < j \<and> j < length (actions m) - 1 \<longrightarrow> apiName (actions m ! j) \<noteq> ''After Hooks'')
            \<longrightarrow> selectedAction (Some m) sel = Some (spec_defaultAction (actions m)))"
proof -
  let ?as = "actions m"
  let ?n = "length ?as"
  note ft = selectedAction_fallthrough [OF sel nofail nonempty]
  have first: "selectedAction (Some m) sel = Some (?as ! (k - 1))"
    if "0 < k" "k < ?n" "apiName (?as ! k) = ''After Hooks''"
       "\<forall>j. 0 < j \<and> j < k \<longrightarrow> apiName (?as ! j) \<noteq> ''After Hooks''" for k
  proof -
    have "hooksLoop ?as 0 (?n - 1) = k - 1"
      using that by (intro hooksLoop_first) auto
    with ft that(2) show ?thesis by (simp add: arrayAt_def)
  qed
  have none: "selectedAction (Some m) sel = Some (last ?as)"
    if "\<forall>j. 0 < j \<and> j < ?n \<longrightarrow> apiName (?as ! j) \<noteq> ''After Hooks''"
  proof -
    have "hooksLoop ?as 0 (?n - 1) = ?n - 1"
      using that by (intro hooksLoop_none) auto
    with ft nonempty show ?thesis by (simp add: arrayAt_def last_conv_nth)
  qed
  have spec: "selectedAction (Some m) sel = Some (spec_defaultAction ?as)"
    if mid: "\<forall>j. 0 < j \<and> j < ?n - 1 \<longrightarrow> apiName (?as ! j) \<noteq> ''After Hooks''"
  proof (cases "apiName (last ?as) = ''After Hooks'' \<and> ?n - 1 \<noteq> 0")
    case True
    with nonempty have "0 < ?n - 1" "?n - 1 < ?n" "apiName (?as ! (?n - 1)) = ''After Hooks''"
      by (auto simp: last_conv_nth)
    from first [OF this mid] True show ?thesis
      by (simp add: spec_defaultAction_def numeral_2_eq_2)
  next
    case False
    have "\<forall>j. 0 < j \<and> j < ?n \<longrightarrow> apiName (?as ! j) \<noteq> ''After Hooks''"
    proof (intro allI impI)
      fix j assume j: "0 < j \<and> j < ?n"
      show "apiName (?as ! j) \<noteq> ''After Hooks''"
      proof (cases "j < ?n - 1")
        case True
        with j mid show ?thesis by blast
      next
        case F: False
        with j have "j = ?n - 1" by arith
        with j False nonempty show ?thesis by (auto simp: last_conv_nth)
      qed
    qed
    from none [OF this] False show ?thesis by (auto simp: spec_defaultAction_def)
  qed
  from first none spec show ?thesis by blast
qed

text \<open>
  The theorem at the actions \<open>a\<close>, \<open>b\<close>, \<open>After Hooks\<close>, where the first \<open>After Hooks\<close>
  after index 0 is at index 2 and the action at index 1 is selected, and at the single
  action \<open>After Hooks\<close>, which is selected itself.
\<close>

theorem selectedAction_default_witness:
  "selectedAction
     (Some \<lparr>actions = [\<lparr>callId = ''a'', apiName = ''click''\<rparr>,
                       \<lparr>callId = ''b'', apiName = ''fill''\<rparr>,
                       \<lparr>callId = ''h'', apiName = ''After Hooks''\<rparr>],
            failedAction = None, startTime = None, endTime = None\<rparr>) None
   = Some \<lparr>callId = ''b'', apiName = ''fill''\<rparr>
   \<and> spec_defaultAction [\<lparr>callId = ''a'', apiName = ''click''\<rparr>,
                          \<lparr>callId = ''b'', apiName = ''fill''\<rparr>,
                          \<lparr>callId = ''h'', apiName = ''After Hooks''\<rparr>]
     = \<lparr>callId = ''b'', apiName = ''fill''\<rparr>
   \<and> selectedAction
     (Some \<lparr>actions = [\<lparr>callId = ''h'', apiName = ''After Hooks''\<rparr>],
            failedAction = None, startTime = None, endTime = None\<rparr>) None
   = Some \<lparr>callId = ''h'', apiName = ''After Hooks''\<rparr>"
proof -
  let ?m = "\<lparr>actions = [\<lparr>callId = ''a'', apiName = ''click''\<rparr>,
                       \<lparr>callId = ''b'', apiName = ''fill''\<rparr>,
                       \<lparr>callId = ''h'', apiName = ''After Hooks''\<rparr>],
            failedAction = None, startTime = None, endTime = None\<rparr>"
  let ?m1 = "\<lparr>actions = [\<lparr>callId = ''h'', apiName = ''After Hooks''\<rparr>],
            failedAction = None, startTime = None, endTime = None\<rparr>"
  have h1: "findSelected (Some ?m) None = None" by (simp add: findSelected_def)
  have h2: "failedAction ?m = None" by simp
  have h3: "actions ?m \<noteq> []" by simp
  have h4: "0 < (2::nat) \<and> 2 < length (actions ?m)
            \<and> apiName (actions ?m ! 2) = ''After Hooks''
            \<and> (\<forall>j. 0 < j \<and> j < 2 \<longrightarrow> apiName (actions ?m ! j) \<noteq> ''After Hooks'')"
    by (auto simp: less_Suc_eq numeral_2_eq_2)
  have h5: "\<forall>j. 0 < j \<and> j < length (actions ?m) - 1
            \<longrightarrow> apiName (actions ?m ! j) \<noteq> ''After Hooks''"
    by (auto simp: less_Suc_eq numeral_2_eq_2)
  note t = selectedAction_default [OF h1 h2 h3]
  from t h4 have "selectedAction (Some ?m) None = Some (actions ?m ! (2 - 1))" by blast
  then have a: "selectedAction (Some ?m) None = Some \<lparr>callId = ''b'', apiName = ''fill''\<rparr>"
    by simp
  from t h5 have "selectedAction (Some ?m) None = Some (spec_defaultAction (actions ?m))"
    by blast
  with a have b: "spec_defaultAction (actions ?m) = \<lparr>callId = ''b'', apiName = ''fill''\<rparr>"
    by simp
  have g1: "findSelected (Some ?m1) None = None" by (simp add: findSelected_def)
  have g2: "failedAction ?m1 = None" by simp
  have g3: "actions ?m1 \<noteq> []" by simp
  have g4: "\<forall>j. 0 < j \<and> j < length (actions ?m1)
            \<longrightarrow> apiName (actions ?m1 ! j) \<noteq> ''After Hooks''"
    by auto
  from selectedAction_default [OF g1 g2 g3] g4
  have "selectedAction (Some ?m1) None = Some (last (actions ?m1))" by blast
  then have c: "selectedAction (Some ?m1) None = Some \<lparr>callId = ''h'', apiName = ''After Hooks''\<rparr>"
    by simp
  from a b c show ?thesis by simp
qed

text \<open>
  The claim as the specification words it fails when an action follows \<open>After Hooks\<close>:
  for \<open>a\<close>, \<open>After Hooks\<close>, \<open>b\<close> the last action \<open>b\<close> is not named \<open>After Hooks\<close> and the
  specification returns it, while the loop stops at index 1 and \<open>a\<close> is selected.
\<close>

theorem selectedAction_default_counterexample:
  "selectedAction
     (Some \<lparr>actions = [\<lparr>callId = ''a'', apiName = ''click''\<rparr>,
                       \<lparr>callId = ''h'', apiName = ''After Hooks''\<rparr>,
                       \<lparr>callId = ''b'', apiName = ''fill''\<rparr>],
            failedAction = None, startTime = None, endTime = None\<rparr>) None
   = Some \<lparr>callId = ''a'', apiName = ''click''\<rparr>
   \<and> spec_defaultAction [\<lparr>callId = ''a'', apiName = ''click''\<rparr>,
                          \<lparr>callId = ''h'', apiName = ''After Hooks''\<rparr>,
                          \<lparr>callId = ''b'', apiName = ''fill''\<rparr>]
     = \<lparr>callId = ''b'', apiName = ''fill''\<rparr>
   \<and> \<lparr>callId = ''a'', apiName = ''click''\<rparr> \<noteq> \<lparr>callId = ''b'', apiName = ''fill''\<rparr>"
proof -
  let ?as = "[\<lparr>callId = ''a'', apiName = ''click''\<rparr>,
              \<lparr>callId = ''h'', apiName = ''After Hooks''\<rparr>,
              \<lparr>callId = ''b'', apiName = ''fill''\<rparr>]"
  have "hooksLoop ?as 0 (length ?as - 1) = 0"
    by (simp add: hooksLoop.simps)
  then show ?thesis
    by (simp add: selectedAction_def findSelected_def spec_defaultAction_def arrayAt_def)
qed

text \<open>
  Claim C7, as amended. For every model and every non-empty \<open>selectedCallId\<close> that is the
  \<open>callId\<close> of some action of the model, \<open>selectedAction\<close> is an action of the model with
  that \<open>callId\<close>, the first such in the sequence, whatever \<open>failedAction\<close> reports and
  wherever the action stands; when the \<open>callId\<close>s are unique it is the matching action.
\<close>

theorem selectedAction_explicit:
  assumes nonempty: "cid \<noteq> []"
    and mem: "a \<in> set (actions m)"
    and cida: "callId a = cid"
  shows "\<exists>b. selectedAction (Some m) (Some cid) = Some b
            \<and> b \<in> set (actions m) \<and> callId b = cid
            \<and> (\<exists>i<length (actions m). actions m ! i = b
                   \<and> (\<forall>j<i. callId (actions m ! j) \<noteq> cid))
            \<and> (distinct (map callId (actions m)) \<longrightarrow> b = a)"
proof -
  from array_find_mem [of a "actions m" "\<lambda>x. callId x = cid"] mem cida
  obtain b where b: "array_find (\<lambda>x. callId x = cid) (actions m) = Some b" by blast
  with nonempty have sel: "selectedAction (Some m) (Some cid) = Some b"
    by (simp add: selectedAction_def findSelected_def)
  from array_find_Some [OF b] have props: "b \<in> set (actions m)" "callId b = cid" by simp_all
  from array_find_first [OF b]
  have first: "\<exists>i<length (actions m). actions m ! i = b \<and> (\<forall>j<i. callId (actions m ! j) \<noteq> cid)" .
  have "b = a" if "distinct (map callId (actions m))"
    using array_find_distinct [OF that mem] b cida by simp
  with sel props first show ?thesis by blast
qed

text \<open>
  The theorem at a model whose failed action is \<open>c\<close> and whose selected id is that of
  \<open>b\<close>, the second of three actions: \<open>b\<close> is selected.
\<close>

theorem selectedAction_explicit_witness:
  "selectedAction
     (Some \<lparr>actions = [\<lparr>callId = ''a'', apiName = ''click''\<rparr>,
                       \<lparr>callId = ''b'', apiName = ''fill''\<rparr>,
                       \<lparr>callId = ''c'', apiName = ''press''\<rparr>],
            failedAction = Some \<lparr>callId = ''c'', apiName = ''press''\<rparr>,
            startTime = None, endTime = None\<rparr>) (Some ''b'')
   = Some \<lparr>callId = ''b'', apiName = ''fill''\<rparr>"
proof -
  let ?m = "\<lparr>actions = [\<lparr>callId = ''a'', apiName = ''click''\<rparr>,
                       \<lparr>callId = ''b'', apiName = ''fill''\<rparr>,
                       \<lparr>callId = ''c'', apiName = ''press''\<rparr>],
            failedAction = Some \<lparr>callId = ''c'', apiName = ''press''\<rparr>,
            startTime = None, endTime = None\<rparr>"
  let ?b = "\<lparr>callId = ''b'', apiName = ''fill''\<rparr>"
  have h1: "''b'' \<noteq> []" by simp
  have h2: "?b \<in> set (actions ?m)" by simp
  have h3: "callId ?b = ''b''" by simp
  have h4: "distinct (map callId (actions ?m))" by simp
  from selectedAction_explicit [OF h1 h2 h3]
  obtain x where x: "selectedAction (Some ?m) (Some ''b'') = Some x"
    and imp: "distinct (map callId (actions ?m)) \<longrightarrow> x = ?b"
    by (elim exE conjE)
  from imp h4 have "x = ?b" by (rule mp)
  with x show ?thesis by (simp only:)
qed

text \<open>
  The claim without the restriction fails at the empty string: the first action has the
  \<open>callId\<close> \<open>''''\<close> and \<open>selectedCallId\<close> is \<open>''''\<close>, which the test \<open>if (selectedCallId)\<close>
  takes for no selection, so the last action is selected instead of the matching one.
\<close>

theorem selectedAction_explicit_counterexample:
  "selectedAction
     (Some \<lparr>actions = [\<lparr>callId = '''', apiName = ''click''\<rparr>,
                       \<lparr>callId = ''b'', apiName = ''fill''\<rparr>],
            failedAction = None, startTime = None, endTime = None\<rparr>) (Some '''')
   = Some \<lparr>callId = ''b'', apiName = ''fill''\<rparr>
   \<and> callId \<lparr>callId = '''', apiName = ''click''\<rparr> = ''''
   \<and> callId \<lparr>callId = ''b'', apiName = ''fill''\<rparr> \<noteq> ''''"
proof -
  let ?as = "[\<lparr>callId = '''', apiName = ''click''\<rparr>, \<lparr>callId = ''b'', apiName = ''fill''\<rparr>]"
  have "hooksLoop ?as 0 (length ?as - 1) = 1"
    by (simp add: hooksLoop.simps)
  then show ?thesis
    by (simp add: selectedAction_def findSelected_def arrayAt_def)
qed

text \<open>
  Claim C6. \<open>activeAction\<close> is the highlighted action whenever there is one, and the
  selected action (or none, when there is none) otherwise; both come out as they went in.
\<close>

theorem activeAction_highlighted_else_selected:
  "activeAction (Some h) selected = Some h \<and> activeAction None selected = selected"
  by (simp add: activeAction_def)

subsection \<open>The state\<close>

text \<open>
  Claim C3. From any state in which inspecting implies that the properties tab is
  \<open>inspector\<close>, each of \<open>selectPropertiesTab\<close>, \<open>setIsInspecting\<close>, \<open>locatorPicked\<close> (the
  store's \<open>pickLocator\<close>), \<open>revealAttachment\<close> and \<open>revealInSource\<close> (the store's
  \<open>revealError\<close>) leads to a state in which it holds again.
\<close>

theorem inspecting_on_inspector_preserved:
  assumes "inspecting_on_inspector s"
  shows "inspecting_on_inspector (selectPropertiesTab tab s)
       \<and> inspecting_on_inspector (setIsInspecting v s)
       \<and> inspecting_on_inspector (locatorPicked locator s)
       \<and> inspecting_on_inspector (revealAttachment att s)
       \<and> inspecting_on_inspector (revealInSource e s)"
proof (intro conjI)
  show "inspecting_on_inspector (selectPropertiesTab tab s)"
    using assms by (simp add: inspecting_on_inspector_def selectPropertiesTab_def Let_def)
  show "inspecting_on_inspector (setIsInspecting v s)"
    using assms
    by (simp add: inspecting_on_inspector_def setIsInspecting_def selectPropertiesTab_def Let_def)
  show "inspecting_on_inspector (locatorPicked locator s)"
    using assms
    by (simp add: inspecting_on_inspector_def locatorPicked_def selectPropertiesTab_def Let_def)
  show "inspecting_on_inspector (revealAttachment att s)"
    by (simp add: inspecting_on_inspector_def revealAttachment_def selectPropertiesTab_def Let_def)
  show "inspecting_on_inspector (revealInSource e s)"
    by (simp add: inspecting_on_inspector_def revealInSource_def selectPropertiesTab_def Let_def)
qed

text \<open>The theorem at a state that is inspecting, on the \<open>inspector\<close> tab.\<close>

theorem inspecting_on_inspector_preserved_witness:
  "inspecting_on_inspector
     \<lparr>selectedCallId = None, revealedError = None, revealedAttachment = None,
      highlightedCallId = None, highlightedEntry = None, highlightedConsoleMessage = None,
      selectedNavigatorTab = ''actions'', selectedPropertiesTab = ''inspector'',
      isInspecting = True, highlightedLocator = '''', selectedTime = None,
      sidebarLocation = bottom\<rparr>
   \<and> inspecting_on_inspector (selectPropertiesTab ''log''
     \<lparr>selectedCallId = None, revealedError = None, revealedAttachment = None,
      highlightedCallId = None, highlightedEntry = None, highlightedConsoleMessage = None,
      selectedNavigatorTab = ''actions'', selectedPropertiesTab = ''inspector'',
      isInspecting = True, highlightedLocator = '''', selectedTime = None,
      sidebarLocation = bottom\<rparr>)
   \<and> inspecting_on_inspector (setIsInspecting True
     \<lparr>selectedCallId = None, revealedError = None, revealedAttachment = None,
      highlightedCallId = None, highlightedEntry = None, highlightedConsoleMessage = None,
      selectedNavigatorTab = ''actions'', selectedPropertiesTab = ''inspector'',
      isInspecting = True, highlightedLocator = '''', selectedTime = None,
      sidebarLocation = bottom\<rparr>)
   \<and> inspecting_on_inspector (locatorPicked ''button''
     \<lparr>selectedCallId = None, revealedError = None, revealedAttachment = None,
      highlightedCallId = None, highlightedEntry = None, highlightedConsoleMessage = None,
      selectedNavigatorTab = ''actions'', selectedPropertiesTab = ''inspector'',
      isInspecting = True, highlightedLocator = '''', selectedTime = None,
      sidebarLocation = bottom\<rparr>)
   \<and> inspecting_on_inspector (revealAttachment ''screenshot''
     \<lparr>selectedCallId = None, revealedError = None, revealedAttachment = None,
      highlightedCallId = None, highlightedEntry = None, highlightedConsoleMessage = None,
      selectedNavigatorTab = ''actions'', selectedPropertiesTab = ''inspector'',
      isInspecting = True, highlightedLocator = '''', selectedTime = None,
      sidebarLocation = bottom\<rparr>)
   \<and> inspecting_on_inspector (revealInSource \<lparr>error_action = None, error_message = ''failed''\<rparr>
     \<lparr>selectedCallId = None, revealedError = None, revealedAttachment = None,
      highlightedCallId = None, highlightedEntry = None, highlightedConsoleMessage = None,
      selectedNavigatorTab = ''actions'', selectedPropertiesTab = ''inspector'',
      isInspecting = True, highlightedLocator = '''', selectedTime = None,
      sidebarLocation = bottom\<rparr>)"
proof -
  let ?s = "\<lparr>selectedCallId = None, revealedError = None, revealedAttachment = None,
      highlightedCallId = None, highlightedEntry = None, highlightedConsoleMessage = None,
      selectedNavigatorTab = ''actions'', selectedPropertiesTab = ''inspector'',
      isInspecting = True, highlightedLocator = '''', selectedTime = None,
      sidebarLocation = bottom\<rparr>"
  have h: "inspecting_on_inspector ?s" by (simp add: inspecting_on_inspector_def)
  from inspecting_on_inspector_preserved
         [OF h, of "''log''" True "''button''" "''screenshot''"
            "\<lparr>error_action = None, error_message = ''failed''\<rparr>"] h
  show ?thesis by (intro conjI) (elim conjE, assumption)+
qed

text \<open>
  Claim C5. From any state with the properties tab \<open>call\<close> and not inspecting,
  \<open>setIsInspecting(true)\<close> gives the tab \<open>inspector\<close> and inspecting; \<open>selectPropertiesTab\<close>
  of \<open>log\<close> after it gives not inspecting and the tab \<open>log\<close>.
\<close>

theorem setIsInspecting_then_selectPropertiesTab:
  "selectedPropertiesTab (setIsInspecting True (s\<lparr>selectedPropertiesTab := ''call'', isInspecting := False\<rparr>))
     = ''inspector''
   \<and> isInspecting (setIsInspecting True (s\<lparr>selectedPropertiesTab := ''call'', isInspecting := False\<rparr>))
   \<and> \<not> isInspecting (selectPropertiesTab ''log''
         (setIsInspecting True (s\<lparr>selectedPropertiesTab := ''call'', isInspecting := False\<rparr>)))
   \<and> selectedPropertiesTab (selectPropertiesTab ''log''
         (setIsInspecting True (s\<lparr>selectedPropertiesTab := ''call'', isInspecting := False\<rparr>)))
     = ''log''"
  by (simp add: setIsInspecting_def selectPropertiesTab_def Let_def)

text \<open>
  Claim C8. The effect that runs when the model is replaced sets \<open>selectedTime\<close> and
  \<open>revealedError\<close> to \<open>undefined\<close> and leaves every other state cell as it was:
  \<open>selectedCallId\<close>, \<open>highlightedCallId\<close>, \<open>selectedPropertiesTab\<close>, \<open>isInspecting\<close>,
  \<open>highlightedLocator\<close>, \<open>sidebarLocation\<close> (the dock side), \<open>revealedAttachment\<close>, and
  also the navigator tab and the hovered network and console entries.
\<close>

theorem modelChanged_frame:
  "selectedTime (modelChanged s) = None
   \<and> revealedError (modelChanged s) = None
   \<and> selectedCallId (modelChanged s) = selectedCallId s
   \<and> highlightedCallId (modelChanged s) = highlightedCallId s
   \<and> selectedPropertiesTab (modelChanged s) = selectedPropertiesTab s
   \<and> isInspecting (modelChanged s) = isInspecting s
   \<and> highlightedLocator (modelChanged s) = highlightedLocator s
   \<and> sidebarLocation (modelChanged s) = sidebarLocation s
   \<and> revealedAttachment (modelChanged s) = revealedAttachment s
   \<and> selectedNavigatorTab (modelChanged s) = selectedNavigatorTab s
   \<and> highlightedEntry (modelChanged s) = highlightedEntry s
   \<and> highlightedConsoleMessage (modelChanged s) = highlightedConsoleMessage s"
  by (simp add: modelChanged_def)

subsection \<open>The boundaries\<close>

text \<open>
  Claim C4. Whenever the start time after defaulting is greater than the end time after
  defaulting, the boundaries are 0 and 31500: the window 0 to 30000 and a twentieth of
  its width, 1500, added on the right.
\<close>

theorem boundaries_inverted:
  assumes "minimum (initialBoundaries m) > maximum (initialBoundaries m)"
  shows "boundaries m = \<lparr>minimum = 0, maximum = 31500\<rparr>"
  using assms by (simp add: boundaries_def Let_def)

text \<open>The theorem at a model that starts at 100 and ends at 50.\<close>

theorem boundaries_inverted_witness:
  "minimum (initialBoundaries (Some \<lparr>actions = [], failedAction = None,
                                     startTime = Some 100, endTime = Some 50\<rparr>))
     > maximum (initialBoundaries (Some \<lparr>actions = [], failedAction = None,
                                        startTime = Some 100, endTime = Some 50\<rparr>))
   \<and> boundaries (Some \<lparr>actions = [], failedAction = None,
                        startTime = Some 100, endTime = Some 50\<rparr>)
     = \<lparr>minimum = 0, maximum = 31500\<rparr>"
proof -
  let ?m = "Some \<lparr>actions = [], failedAction = None, startTime = Some 100, endTime = Some 50\<rparr>"
  have h: "minimum (initialBoundaries ?m) > maximum (initialBoundaries ?m)"
    by (simp add: initialBoundaries_def orDefault_def)
  from boundaries_inverted [OF h] h show ?thesis by simp
qed

text \<open>
  Claim C10. An end time of 0 gives the boundaries of an absent end time, and a start
  time of 0 those of an absent start time: the maximum starts from the default 30000,
  not from 0, and a model that starts and ends at 0 has the boundaries 0 and 31500.
\<close>

theorem boundaries_zero_is_absent:
  "boundaries (Some (md\<lparr>endTime := Some 0\<rparr>)) = boundaries (Some (md\<lparr>endTime := None\<rparr>))
   \<and> boundaries (Some (md\<lparr>startTime := Some 0\<rparr>)) = boundaries (Some (md\<lparr>startTime := None\<rparr>))
   \<and> maximum (initialBoundaries (Some (md\<lparr>endTime := Some 0\<rparr>))) = 30000
   \<and> minimum (initialBoundaries (Some (md\<lparr>startTime := Some 0\<rparr>))) = 0
   \<and> boundaries (Some (md\<lparr>startTime := Some 0, endTime := Some 0\<rparr>))
       = \<lparr>minimum = 0, maximum = 31500\<rparr>"
proof -
  have e: "initialBoundaries (Some (md\<lparr>endTime := Some 0\<rparr>)) = initialBoundaries (Some (md\<lparr>endTime := None\<rparr>))"
    by (simp add: initialBoundaries_def orDefault_def)
  have s: "initialBoundaries (Some (md\<lparr>startTime := Some 0\<rparr>)) = initialBoundaries (Some (md\<lparr>startTime := None\<rparr>))"
    by (simp add: initialBoundaries_def orDefault_def)
  have z: "initialBoundaries (Some (md\<lparr>startTime := Some 0, endTime := Some 0\<rparr>)) = \<lparr>minimum = 0, maximum = 30000\<rparr>"
    by (simp add: initialBoundaries_def orDefault_def)
  have 1: "boundaries (Some (md\<lparr>endTime := Some 0\<rparr>)) = boundaries (Some (md\<lparr>endTime := None\<rparr>))"
    unfolding boundaries_def e ..
  have 2: "boundaries (Some (md\<lparr>startTime := Some 0\<rparr>)) = boundaries (Some (md\<lparr>startTime := None\<rparr>))"
    unfolding boundaries_def s ..
  have 3: "maximum (initialBoundaries (Some (md\<lparr>endTime := Some 0\<rparr>))) = 30000"
    by (simp add: initialBoundaries_def orDefault_def)
  have 4: "minimum (initialBoundaries (Some (md\<lparr>startTime := Some 0\<rparr>))) = 0"
    by (simp add: initialBoundaries_def orDefault_def)
  have 5: "boundaries (Some (md\<lparr>startTime := Some 0, endTime := Some 0\<rparr>)) = \<lparr>minimum = 0, maximum = 31500\<rparr>"
    unfolding boundaries_def z by (simp add: Let_def)
  from 1 2 3 4 5 show ?thesis by blast
qed

subsection \<open>The tabs\<close>

text \<open>
  Claim C9. Without \<open>annotations\<close> the array of tabs is the seven tabs inspector, call,
  log, errors, console, network, attachments, in this order; with \<open>annotations\<close> it is
  these seven and one more tab, the last, with the id \<open>annotations\<close> and the length of
  \<open>annotations\<close> as its count. This is the array after line 260, and the array handed to
  the tabbed pane when \<open>showSourcesFirst\<close> is not set.
\<close>

theorem tabs_annotations:
  "pushAnnotations None (baseTabs b)
     = [inspectorTab, callTab, logTab, errorsTab b, consoleTab b, networkTab b, attachmentsTab b]
   \<and> map tab_id (pushAnnotations None (baseTabs b))
     = [''inspector'', ''call'', ''log'', ''errors'', ''console'', ''network'', ''attachments'']
   \<and> pushAnnotations (Some anns) (baseTabs b) = baseTabs b @ [annotationsTab anns]
   \<and> length (pushAnnotations (Some anns) (baseTabs b)) = 8
   \<and> tab_id (last (pushAnnotations (Some anns) (baseTabs b))) = ''annotations''
   \<and> count (last (pushAnnotations (Some anns) (baseTabs b))) = Some (length anns)
   \<and> length (filter (\<lambda>t. tab_id t = ''annotations'') (pushAnnotations (Some anns) (baseTabs b))) = 1
   \<and> tabs sourceTab False None b = Inr (baseTabs b)
   \<and> tabs sourceTab False (Some anns) b = Inr (baseTabs b @ [annotationsTab anns])"
proof -
  have 1: "pushAnnotations None (baseTabs b)
     = [inspectorTab, callTab, logTab, errorsTab b, consoleTab b, networkTab b, attachmentsTab b]"
    by (simp add: pushAnnotations_None baseTabs_def)
  have 2: "map tab_id (pushAnnotations None (baseTabs b))
     = [''inspector'', ''call'', ''log'', ''errors'', ''console'', ''network'', ''attachments'']"
    unfolding 1 by (simp only: list.map tab_ids)
  have 3: "pushAnnotations (Some anns) (baseTabs b) = baseTabs b @ [annotationsTab anns]"
    by (rule pushAnnotations_Some)
  have 4: "length (pushAnnotations (Some anns) (baseTabs b)) = 8"
    unfolding 3 by (simp add: baseTabs_def)
  have 5: "tab_id (last (pushAnnotations (Some anns) (baseTabs b))) = ''annotations''"
    unfolding 3 by (simp add: tab_ids)
  have 6: "count (last (pushAnnotations (Some anns) (baseTabs b))) = Some (length anns)"
    unfolding 3 by (simp add: annotationsTab_def)
  have 7: "length (filter (\<lambda>t. tab_id t = ''annotations'') (pushAnnotations (Some anns) (baseTabs b))) = 1"
    unfolding 3 by (simp add: baseTabs_def tab_ids)
  have 8: "tabs sourceTab False None b = Inr (baseTabs b)"
    by (simp add: tabs_def pushAnnotations_None)
  have 9: "tabs sourceTab False (Some anns) b = Inr (baseTabs b @ [annotationsTab anns])"
    by (simp add: tabs_def pushAnnotations_Some)
  from 1 2 3 4 5 6 7 8 9 show ?thesis by (intro conjI)
qed

text \<open>
  Claim C2: what the code does when \<open>showSourcesFirst\<close> is set. With the file as it is,
  the name \<open>sourceTab\<close> is unbound and no array of tabs results. With the tab of the
  commented-out declaration under that name, the source tab is at index 1, but it was
  not in the array, so the tab deleted before the insertion is the last one: the
  attachments tab without \<open>annotations\<close>, the annotations tab with them.
\<close>

theorem tabs_showSourcesFirst:
  "tabs None True annotations b = Inl ReferenceError
   \<and> tabs (Some (declaredSourceTab n)) True None b
     = Inr [inspectorTab, declaredSourceTab n, callTab, logTab, errorsTab b, consoleTab b,
            networkTab b]
   \<and> tabs (Some (declaredSourceTab n)) True (Some anns) b
     = Inr [inspectorTab, declaredSourceTab n, callTab, logTab, errorsTab b, consoleTab b,
            networkTab b, attachmentsTab b]"
proof -
  have 1: "tabs None True annotations b = Inl ReferenceError"
    by (simp add: tabs_def sourcesFirst_def)
  have 2: "tabs (Some (declaredSourceTab n)) True None b
     = Inr [inspectorTab, declaredSourceTab n, callTab, logTab, errorsTab b, consoleTab b,
            networkTab b]"
  proof -
    have "2 \<le> length (pushAnnotations None (baseTabs b))"
      by (simp add: pushAnnotations_None baseTabs_def)
    from sourcesFirst_absent [OF sourceTab_absent this] show ?thesis
      by (simp add: tabs_def pushAnnotations_None baseTabs_def)
  qed
  have 3: "tabs (Some (declaredSourceTab n)) True (Some anns) b
     = Inr [inspectorTab, declaredSourceTab n, callTab, logTab, errorsTab b, consoleTab b,
            networkTab b, attachmentsTab b]"
  proof -
    have "2 \<le> length (pushAnnotations (Some anns) (baseTabs b))"
      by (simp add: pushAnnotations_Some baseTabs_def)
    from sourcesFirst_absent [OF sourceTab_absent this] show ?thesis
      by (simp add: tabs_def pushAnnotations_Some baseTabs_def)
  qed
  from 1 2 3 show ?thesis by (intro conjI)
qed

end
